theory Spec2Isabelle
  imports Main
begin

section \<open>Python values\<close>

text \<open>
  The program is \<^verbatim>\<open>berita.py\<close>: a fetcher (\<^verbatim>\<open>fetch_html\<close>), a parser
  (\<^verbatim>\<open>parse_articles\<close>) and two request handlers (\<^verbatim>\<open>scrape_berita\<close>,
  \<^verbatim>\<open>scrape_berita_all\<close>). Python strings are modelled as \<^typ>\<open>string\<close> (code points
  below 256), Python integers as \<^typ>\<open>int\<close>, an exception as the left summand of a
  result, Python's \<^verbatim>\<open>None\<close> for an optional string as \<^const>\<open>None\<close>.
\<close>

datatype exn = KeyError string

text \<open>
  A value stored in an article dictionary. The source builds it from strings, with one
  exception: \<^verbatim>\<open>attributes['href']\<close> is \<^verbatim>\<open>None\<close> when the attribute is written
  without a value.
\<close>

datatype pyval = Str string | NoneVal

fun is_Str :: "pyval \<Rightarrow> bool" where
  "is_Str (Str s) = True"
| "is_Str NoneVal = False"

text \<open>A Python dictionary with string keys, in insertion order.\<close>

type_synonym article = "(string \<times> pyval) list"

subsection \<open>String operations of the source\<close>

text \<open>
  \<^verbatim>\<open>str.isspace\<close> on one character, for the code points below 256: tab to carriage
  return, the four separators 28 to 31, space, NEL (133) and the no-break space (160).
\<close>

definition isspace :: "char \<Rightarrow> bool" where
  "isspace c = (of_char c \<in> set [9, 10, 11, 12, 13, 28, 29, 30, 31, 32, 133, 160 :: nat])"

text \<open>\<^verbatim>\<open>s.strip()\<close>: leading and trailing whitespace removed.\<close>

definition strip :: "string \<Rightarrow> string" where
  "strip s = rev (dropWhile isspace (rev (dropWhile isspace s)))"

text \<open>
  \<^verbatim>\<open>s.split(sep)\<close> scans from the left; \<open>cur\<close> is the segment read so far. At each
  position where the separator starts, the segment is closed and the scan goes on after
  the separator. (Python raises \<^verbatim>\<open>ValueError\<close> for an empty separator; the source
  passes the constant \<^verbatim>\<open>'</i>'\<close> only, and an empty separator splits nothing here.)
\<close>

function split_from :: "string \<Rightarrow> string \<Rightarrow> string \<Rightarrow> string list" where
  "split_from sep cur [] = [cur]"
| "split_from sep cur (c # cs) =
     (if sep \<noteq> [] \<and> take (length sep) (c # cs) = sep
      then cur # split_from sep [] (drop (length sep) (c # cs))
      else split_from sep (cur @ [c]) cs)"
  by pat_completeness auto
termination
  by (relation "measure (\<lambda>(sep, cur, s). length s)") auto

definition split :: "string \<Rightarrow> string \<Rightarrow> string list" where
  "split s sep = split_from sep [] s"

text \<open>\<^verbatim>\<open>str(n)\<close> for an integer: decimal digits, a minus sign for a negative number.\<close>

fun str_nat :: "nat \<Rightarrow> string" where
  "str_nat n =
     (if n < 10 then [char_of (48 + n)]
      else str_nat (n div 10) @ [char_of (48 + n mod 10)])"

declare str_nat.simps [simp del]

definition str_int :: "int \<Rightarrow> string" where
  "str_int i = (if i < 0 then ''-'' @ str_nat (nat (- i)) else str_nat (nat i))"

text \<open>Truthiness of an optional string: \<^verbatim>\<open>None\<close> and the empty string are falsy.\<close>

fun truthy :: "string option \<Rightarrow> bool" where
  "truthy None = False"
| "truthy (Some s) = (s \<noteq> [])"

section \<open>The HTML library (selectolax)\<close>

text \<open>
  A parsed document is a tree of text nodes and elements; an element has a tag, its
  attributes (one entry per name, \<^const>\<open>None\<close> for an attribute without a value) and
  its children in document order.
\<close>

datatype node = Text string | Element string "(string \<times> string option) list" "node list"

text \<open>\<^verbatim>\<open>node.attributes\<close>: the dictionary of an element's attributes.\<close>

fun attributes :: "node \<Rightarrow> (string \<times> string option) list" where
  "attributes (Text t) = []"
| "attributes (Element tg at cs) = at"

text \<open>
  \<^verbatim>\<open>node.text(strip=True)\<close>: the text nodes below the node in document order, each
  one stripped, joined with the empty separator. Tags never appear in it.
\<close>

fun text_strip :: "node \<Rightarrow> string" where
  "text_strip (Text t) = strip t"
| "text_strip (Element tg at cs) = concat (map text_strip cs)"

text \<open>
  The HTML parser and the selector engine are not code of the program: they are
  parameters of the model. \<open>HTMLParser\<close> turns the page text into a tree, \<open>css\<close>
  returns the nodes matching a selector below a node, \<open>css_first\<close> the first of them or
  \<^verbatim>\<open>None\<close>.
\<close>

record selectolax =
  HTMLParser :: "string \<Rightarrow> node"
  css :: "node \<Rightarrow> string \<Rightarrow> node list"
  css_first :: "node \<Rightarrow> string \<Rightarrow> node option"

section \<open>The parser\<close>

text \<open>\<^verbatim>\<open>d[k]\<close> on the attribute dictionary: a missing key raises \<^verbatim>\<open>KeyError\<close>.\<close>

definition getitem :: "(string \<times> string option) list \<Rightarrow> string \<Rightarrow> exn + pyval" where
  "getitem d k =
     (case map_of d k of
        None \<Rightarrow> Inl (KeyError k)
      | Some None \<Rightarrow> Inr NoneVal
      | Some (Some v) \<Rightarrow> Inr (Str v))"

text \<open>The four entries of \<^verbatim>\<open>article_data\<close>, each a conditional expression of the source.\<close>

definition title_entry :: "node option \<Rightarrow> string" where
  "title_entry title_element =
     (case title_element of Some t \<Rightarrow> text_strip t | None \<Rightarrow> ''No Title'')"

definition link_entry :: "node option \<Rightarrow> exn + pyval" where
  "link_entry title_element =
     (case title_element of Some t \<Rightarrow> getitem (attributes t) ''href'' | None \<Rightarrow> Inr (Str ''#''))"

definition date_text :: "string \<Rightarrow> string" where
  "date_text t = strip (last (split t ''</i>''))"

definition date_entry :: "node option \<Rightarrow> string" where
  "date_entry date_element =
     (case date_element of Some d \<Rightarrow> date_text (text_strip d) | None \<Rightarrow> ''No Date'')"

definition description_entry :: "node option \<Rightarrow> string" where
  "description_entry description_element =
     (case description_element of Some p \<Rightarrow> text_strip p | None \<Rightarrow> ''No Description'')"

text \<open>
  The body of the \<^verbatim>\<open>for\<close> loop up to the dictionary: three \<^verbatim>\<open>css_first\<close> calls, then
  the dictionary literal. Only the link entry can raise.
\<close>

definition article_data :: "selectolax \<Rightarrow> node \<Rightarrow> exn + article" where
  "article_data L article_element =
     (let title_element = css_first L article_element ''h3 a'';
          date_element = css_first L article_element ''.post-meta span'';
          description_element = css_first L article_element ''p''
      in case link_entry title_element of
           Inl e \<Rightarrow> Inl e
         | Inr link \<Rightarrow>
             Inr [(''title'', Str (title_entry title_element)),
                  (''link'', link),
                  (''date'', Str (date_entry date_element)),
                  (''description'', Str (description_entry description_element))])"

text \<open>The \<^verbatim>\<open>for\<close> loop: one dictionary appended per container; an exception ends it.\<close>

fun parse_loop :: "selectolax \<Rightarrow> node list \<Rightarrow> article list \<Rightarrow> exn + article list" where
  "parse_loop L [] articles_data = Inr articles_data"
| "parse_loop L (article_element # rest) articles_data =
     (case article_data L article_element of
        Inl e \<Rightarrow> Inl e
      | Inr a \<Rightarrow> parse_loop L rest (articles_data @ [a]))"

definition parse_articles :: "selectolax \<Rightarrow> string option \<Rightarrow> exn + article list" where
  "parse_articles L html =
     (case html of
        None \<Rightarrow> Inr []
      | Some h \<Rightarrow>
          if h \<noteq> [] then parse_loop L (css L (HTMLParser L h) ''div.post-content'') []
          else Inr [])"

section \<open>The fetcher\<close>

text \<open>
  What \<^verbatim>\<open>requests.get(url)\<close> does: it raises a \<^verbatim>\<open>RequestException\<close> (a transport
  error) or returns a response with a status code and a body. The upstream site is a
  function from URLs to such outcomes.
\<close>

datatype get_result = RequestException | Response int string

type_synonym web = "string \<Rightarrow> get_result"

text \<open>
  \<^verbatim>\<open>response.raise_for_status()\<close> of the HTTP library: it raises (an exception that
  is a \<^verbatim>\<open>RequestException\<close>) for every status outside 200 to 399. The source's
  comment names the statuses 4xx and 5xx; a status below 200 or from 600 on raises as
  well.
\<close>

definition raise_for_status :: "int \<Rightarrow> bool" where
  "raise_for_status status_code = (\<not> (200 \<le> status_code \<and> status_code < 400))"

text \<open>
  \<^verbatim>\<open>fetch_html\<close>. The second component is the list of URLs requested so far, in
  order. (The message printed in the \<^verbatim>\<open>except\<close> branch is not modelled.)
\<close>

definition fetch_html :: "web \<Rightarrow> string \<Rightarrow> string list \<Rightarrow> string option \<times> string list" where
  "fetch_html w url requested =
     (case w url of
        RequestException \<Rightarrow> (None, requested @ [url])
      | Response status_code body \<Rightarrow>
          if raise_for_status status_code then (None, requested @ [url])
          else (Some body, requested @ [url]))"

section \<open>The request handlers\<close>

definition BASE_URL :: string where
  "BASE_URL = ''https://sman8ptk.sch.id/berita''"

definition scrape_url :: "int \<Rightarrow> string" where
  "scrape_url page = BASE_URL @ ''?page='' @ str_int page"

text \<open>The body of \<^verbatim>\<open>scrape_berita\<close>.\<close>

definition scrape_berita ::
  "selectolax \<Rightarrow> web \<Rightarrow> int \<Rightarrow> string list \<Rightarrow> (exn + article list) \<times> string list" where
  "scrape_berita L w page requested =
     (case fetch_html w (scrape_url page) requested of
        (html_content, requested') \<Rightarrow>
          if truthy html_content then (parse_articles L html_content, requested')
          else (Inr [], requested'))"

text \<open>
  The \<^verbatim>\<open>while True\<close> loop of \<^verbatim>\<open>scrape_berita_all\<close>. It has no bound: where it
  does not return, the value is \<^const>\<open>None\<close>.
\<close>

partial_function (option) scrape_loop ::
  "selectolax \<Rightarrow> web \<Rightarrow> int \<Rightarrow> article list \<Rightarrow> string list
     \<Rightarrow> ((exn + article list) \<times> string list) option" where
  "scrape_loop L w page_number all_articles requested =
     (case fetch_html w (scrape_url page_number) requested of
        (html_content, requested') \<Rightarrow>
          if \<not> truthy html_content then Some (Inr all_articles, requested')
          else
            (case parse_articles L html_content of
               Inl e \<Rightarrow> Some (Inl e, requested')
             | Inr articles \<Rightarrow>
                 if articles = [] then Some (Inr all_articles, requested')
                 else scrape_loop L w (page_number + 1) (all_articles @ articles) requested'))"

definition scrape_berita_all ::
  "selectolax \<Rightarrow> web \<Rightarrow> string list \<Rightarrow> ((exn + article list) \<times> string list) option" where
  "scrape_berita_all L w requested = scrape_loop L w 1 [] requested"

subsection \<open>The routes\<close>

text \<open>
  What the decorators of the two handlers declare. A handler's return value is checked
  against \<^verbatim>\<open>response_model=List[Dict[str, str]]\<close> and sent with status 200; an
  exception of the handler, or a value that is not a string, is answered with status 500.
  The query parameter \<^verbatim>\<open>page\<close> defaults to 1 and is validated with \<^verbatim>\<open>ge=1\<close>
  before the handler runs; a request that fails validation is answered with status 422.
\<close>

datatype http_response = Http200 "article list" | Http422 | Http500

definition response_model :: "exn + article list \<Rightarrow> http_response" where
  "response_model r =
     (case r of
        Inl e \<Rightarrow> Http500
      | Inr articles \<Rightarrow>
          if list_all (\<lambda>a. list_all (\<lambda>kv. is_Str (snd kv)) a) articles then Http200 articles
          else Http500)"

definition get_scrape_berita ::
  "selectolax \<Rightarrow> web \<Rightarrow> int option \<Rightarrow> string list \<Rightarrow> http_response \<times> string list" where
  "get_scrape_berita L w page_param requested =
     (let page = (case page_param of None \<Rightarrow> 1 | Some p \<Rightarrow> p)
      in if page < 1 then (Http422, requested)
         else (case scrape_berita L w page requested of
                 (r, requested') \<Rightarrow> (response_model r, requested')))"

definition get_scrape_berita_all ::
  "selectolax \<Rightarrow> web \<Rightarrow> string list \<Rightarrow> (http_response \<times> string list) option" where
  "get_scrape_berita_all L w requested =
     (case scrape_berita_all L w requested of
        None \<Rightarrow> None
      | Some (r, requested') \<Rightarrow> Some (response_model r, requested'))"

section \<open>Pages, as the handlers see them\<close>

text \<open>
  What \<^verbatim>\<open>fetch_html\<close> returns for page \<open>p\<close> of the site, and what the parser makes
  of it. These two are notions of the statements below, not functions of the source.
\<close>

definition fetched :: "web \<Rightarrow> int \<Rightarrow> string option" where
  "fetched w p = fst (fetch_html w (scrape_url p) [])"

definition page_articles :: "selectolax \<Rightarrow> web \<Rightarrow> int \<Rightarrow> exn + article list" where
  "page_articles L w p = parse_articles L (fetched w p)"

text \<open>The articles of a page that was parsed without an exception.\<close>

fun parsed :: "exn + article list \<Rightarrow> article list" where
  "parsed (Inl e) = []"
| "parsed (Inr articles) = articles"

text \<open>A page the loop goes past: it was fetched, and its parse is a non-empty list.\<close>

definition content_page :: "selectolax \<Rightarrow> web \<Rightarrow> int \<Rightarrow> bool" where
  "content_page L w p = (truthy (fetched w p) \<and> page_articles L w p = Inr (parsed (page_articles L w p))
     \<and> parsed (page_articles L w p) \<noteq> [])"

text \<open>A page the loop stops at: its fetch failed, or its parse is the empty list.\<close>

definition last_page :: "selectolax \<Rightarrow> web \<Rightarrow> int \<Rightarrow> bool" where
  "last_page L w p = (\<not> truthy (fetched w p) \<or> page_articles L w p = Inr [])"

text \<open>The separator occurs somewhere in the string.\<close>

fun occurs :: "string \<Rightarrow> string \<Rightarrow> bool" where
  "occurs sep [] = (sep = [])"
| "occurs sep (c # cs) = (take (length sep) (c # cs) = sep \<or> occurs sep cs)"

section \<open>A reference instance of the library\<close>

text \<open>
  To run the model on concrete pages the library parameters need values. The selector
  engine below covers the selectors of the source: a tag, a class, both, and the
  descendant combinator. \<open>find_all ps n\<close> walks the tree below \<open>n\<close> in document order;
  \<open>ps\<close> are the compound selectors still to be matched on the way down.
\<close>

fun has_tag :: "string \<Rightarrow> node \<Rightarrow> bool" where
  "has_tag tg (Text t) = False"
| "has_tag tg (Element tg' at cs) = (tg' = tg)"

fun has_class :: "string \<Rightarrow> node \<Rightarrow> bool" where
  "has_class c (Text t) = False"
| "has_class c (Element tg at cs) =
     (case map_of at ''class'' of
        Some (Some v) \<Rightarrow> c \<in> set (split v '' '')
      | _ \<Rightarrow> False)"

fun find_all :: "(node \<Rightarrow> bool) list \<Rightarrow> node \<Rightarrow> node list" where
  "find_all ps (Text t) = []"
| "find_all ps (Element tg at cs) =
     concat (map (\<lambda>c.
       (case ps of [q] \<Rightarrow> if q c then [c] else [] | _ \<Rightarrow> [])
       @ find_all (case ps of p # q # r \<Rightarrow> if p c then q # r else ps | _ \<Rightarrow> ps) c) cs)"

definition ref_css :: "node \<Rightarrow> string \<Rightarrow> node list" where
  "ref_css n query =
     (if query = ''div.post-content''
        then find_all [\<lambda>m. has_tag ''div'' m \<and> has_class ''post-content'' m] n
      else if query = ''h3 a'' then find_all [has_tag ''h3'', has_tag ''a''] n
      else if query = ''.post-meta span'' then find_all [has_class ''post-meta'', has_tag ''span''] n
      else if query = ''p'' then find_all [has_tag ''p''] n
      else [])"

definition ref_css_first :: "node \<Rightarrow> string \<Rightarrow> node option" where
  "ref_css_first n query = (case ref_css n query of [] \<Rightarrow> None | m # ms \<Rightarrow> Some m)"

text \<open>A parser given by a table of page texts and their trees; any other text is an empty document.\<close>

definition document :: "node list \<Rightarrow> node" where
  "document body = Element ''html'' [] [Element ''head'' [] [], Element ''body'' [] body]"

definition table_parser :: "(string \<times> node) list \<Rightarrow> string \<Rightarrow> node" where
  "table_parser table html = (case map_of table html of Some tree \<Rightarrow> tree | None \<Rightarrow> document [])"

definition ref_lib :: "(string \<times> node) list \<Rightarrow> selectolax" where
  "ref_lib table = \<lparr>HTMLParser = table_parser table, css = ref_css, css_first = ref_css_first\<rparr>"

subsection \<open>Concrete pages\<close>

text \<open>A container whose title anchor has no \<^verbatim>\<open>href\<close> attribute.\<close>

definition nohref_html :: string where
  "nohref_html = ''<div class=\"post-content\"><h3><a>Kegiatan</a></h3><p>Upacara</p></div>''"

definition nohref_tree :: node where
  "nohref_tree = document
     [Element ''div'' [(''class'', Some ''post-content'')]
        [Element ''h3'' [] [Element ''a'' [] [Text ''Kegiatan'']],
         Element ''p'' [] [Text ''Upacara'']]]"

text \<open>A listing with the given descriptions: one container with one paragraph each.\<close>

definition item_html :: "string \<Rightarrow> string" where
  "item_html d = ''<div class=\"post-content\"><p>'' @ d @ ''</p></div>''"

definition item_tree :: "string \<Rightarrow> node" where
  "item_tree d = Element ''div'' [(''class'', Some ''post-content'')] [Element ''p'' [] [Text d]]"

definition item_article :: "string \<Rightarrow> article" where
  "item_article d =
     [(''title'', Str ''No Title''), (''link'', Str ''#''), (''date'', Str ''No Date''),
      (''description'', Str d)]"

definition page1_items :: "string list" where
  "page1_items = [''a1'', ''a2'', ''a3'', ''a4'', ''a5'']"

definition page2_items :: "string list" where
  "page2_items = [''b1'', ''b2'', ''b3'']"

text \<open>A page without a container.\<close>

definition plain_html :: string where
  "plain_html = ''<p>Tidak ada berita</p>''"

definition plain_tree :: node where
  "plain_tree = document [Element ''p'' [] [Text ''Tidak ada berita'']]"

definition site_table :: "(string \<times> node) list" where
  "site_table =
     [(nohref_html, nohref_tree),
      (concat (map item_html page1_items), document (map item_tree page1_items)),
      (concat (map item_html page2_items), document (map item_tree page2_items)),
      (plain_html, plain_tree)]"

definition site_lib :: selectolax where
  "site_lib = ref_lib site_table"

text \<open>A site of two listing pages; every other URL answers 404.\<close>

definition two_page_web :: web where
  "two_page_web url =
     (if url = scrape_url 1 then Response 200 (concat (map item_html page1_items))
      else if url = scrape_url 2 then Response 200 (concat (map item_html page2_items))
      else Response 404 ''Not Found'')"

text \<open>A site whose first page holds the container without \<^verbatim>\<open>href\<close>.\<close>

definition nohref_web :: web where
  "nohref_web url = (if url = scrape_url 1 then Response 200 nohref_html else RequestException)"

text \<open>A site that answers every request with status 300 and a body.\<close>

definition choices_web :: web where
  "choices_web url = Response 300 ''<a href=\"/berita\">berita</a>''"

text \<open>A site that answers every request with status 600 and a body.\<close>

definition status_600_web :: web where
  "status_600_web url = Response 600 ''body600''"

text \<open>
  A container with all three sub-elements; its date element has the markup
  \<^verbatim>\<open><i class="icon"></i>12 March 2024\<close>.
\<close>

definition icon_span :: node where
  "icon_span = Element ''span'' [] [Element ''i'' [(''class'', Some ''icon'')] [], Text ''12 March 2024'']"

definition dated_item :: node where
  "dated_item = Element ''div'' [(''class'', Some ''post-content'')]
     [Element ''h3'' [] [Element ''a'' [(''href'', Some ''/berita/1'')] [Text ''Judul'']],
      Element ''div'' [(''class'', Some ''post-meta'')] [icon_span],
      Element ''p'' [] [Text ''Isi'']]"

text \<open>
  A date element whose text holds the tag as characters (written with entities in the
  page), with whitespace around the date.
\<close>

definition escaped_span :: node where
  "escaped_span = Element ''span'' [] [Text '' Terbit </i> 12 March 2024 '']"

text \<open>A site that is down, and one that answers with an empty body.\<close>

definition down_web :: web where
  "down_web url = RequestException"

definition empty_web :: web where
  "empty_web url = Response 200 []"

section \<open>Basic facts\<close>

lemma split_from_nonempty: "split_from sep cur s \<noteq> []"
  by (induction sep cur s rule: split_from.induct) auto

subsection \<open>The fetcher and the parser loop\<close>

lemma fetch_html_requested: "fetch_html w url requested = (fst (fetch_html w url []), requested @ [url])"
  by (simp add: fetch_html_def split: get_result.splits)

lemma fetch_html_fetched: "fetch_html w (scrape_url p) requested = (fetched w p, requested @ [scrape_url p])"
  unfolding fetched_def by (rule fetch_html_requested)

lemma parse_loop_append:
  "parse_loop L es acc = (case parse_loop L es [] of Inl e \<Rightarrow> Inl e | Inr as \<Rightarrow> Inr (acc @ as))"
proof (induction es arbitrary: acc)
  case Nil
  show ?case by simp
next
  case (Cons e es)
  show ?case
  proof (cases "article_data L e")
    case (Inl x)
    then show ?thesis by simp
  next
    case (Inr a)
    have "parse_loop L es (acc @ [a]) = (case parse_loop L es [] of Inl e \<Rightarrow> Inl e | Inr as \<Rightarrow> Inr ((acc @ [a]) @ as))"
      by (rule Cons.IH)
    moreover have "parse_loop L es [a] = (case parse_loop L es [] of Inl e \<Rightarrow> Inl e | Inr as \<Rightarrow> Inr ([a] @ as))"
      using Cons.IH [of "[a]"] by simp
    ultimately show ?thesis using Inr by (simp split: sum.splits)
  qed
qed

lemma parse_loop_map:
  "parse_loop L es [] = Inr as \<Longrightarrow> map (article_data L) es = map Inr as"
proof (induction es arbitrary: as)
  case Nil
  then show ?case by simp
next
  case (Cons e es)
  from Cons.prems obtain a where a: "article_data L e = Inr a"
    by (cases "article_data L e") auto
  with Cons.prems have "parse_loop L es [a] = Inr as" by simp
  then obtain bs where bs: "parse_loop L es [] = Inr bs" and as: "as = a # bs"
    by (subst (asm) parse_loop_append) (auto split: sum.splits)
  from Cons.IH [OF bs] a as show ?case by simp
qed

lemma scrape_loop_stop:
  assumes "last_page L w p"
  shows "scrape_loop L w p acc requested = Some (Inr acc, requested @ [scrape_url p])"
proof (cases "truthy (fetched w p)")
  case False
  then show ?thesis
    by (subst scrape_loop.simps) (simp add: fetch_html_fetched)
next
  case True
  with assms have "parse_articles L (fetched w p) = Inr []"
    by (simp add: last_page_def page_articles_def)
  with True show ?thesis
    by (subst scrape_loop.simps) (simp add: fetch_html_fetched)
qed

lemma scrape_loop_step:
  assumes "content_page L w p"
  shows "scrape_loop L w p acc requested =
    scrape_loop L w (p + 1) (acc @ parsed (page_articles L w p)) (requested @ [scrape_url p])"
proof -
  from assms have t: "truthy (fetched w p)"
    and e: "parse_articles L (fetched w p) = Inr (parsed (page_articles L w p))"
    and n: "parsed (page_articles L w p) \<noteq> []"
    by (simp_all add: content_page_def page_articles_def)
  show ?thesis
    by (subst scrape_loop.simps) (simp add: fetch_html_fetched t e n)
qed

lemma scrape_loop_run:
  assumes "\<forall>p\<in>{a..n}. content_page L w p" and "last_page L w (n + 1)" and "a \<le> n + 1"
  shows "scrape_loop L w a acc requested =
    Some (Inr (acc @ concat (map (\<lambda>p. parsed (page_articles L w p)) [a..n])),
          requested @ map scrape_url [a..n + 1])"
  using assms
proof (induction "nat (n + 1 - a)" arbitrary: a acc requested)
  case 0
  then have a: "a = n + 1" by simp
  have "[n + 1..n] = []" by simp
  moreover have "[n + 1..n + 1] = [n + 1]" by (simp add: upto.simps)
  ultimately show ?case using scrape_loop_stop [OF "0.prems"(2)] a by simp
next
  case (Suc k)
  then have le: "a \<le> n" by simp
  then have c: "content_page L w a" using Suc.prems(1) by simp
  have k: "k = nat (n + 1 - (a + 1))" using Suc.hyps(2) by simp
  have rest: "\<forall>p\<in>{a + 1..n}. content_page L w p" using Suc.prems(1) by simp
  have le': "a + 1 \<le> n + 1" using le by simp
  have u1: "[a..n] = a # [a + 1..n]" using le by (simp add: upto_rec1)
  have u2: "[a..n + 1] = a # [a + 1..n + 1]" using le by (simp add: upto_rec1)
  show ?case
    by (simp add: scrape_loop_step [OF c] Suc.hyps(1) [OF k rest Suc.prems(2) le'] u1 u2)
qed

subsection \<open>Splitting on the tag\<close>

lemma split_from_none: "\<not> occurs sep s \<Longrightarrow> split_from sep cur s = [cur @ s]"
  by (induction s arbitrary: cur) auto

lemma split_from_match:
  "sep \<noteq> [] \<Longrightarrow> take (length sep) (c # cs) = sep \<Longrightarrow>
   split_from sep cur (c # cs) = cur # split_from sep [] (drop (length sep) (c # cs))"
  by simp

lemma split_from_skip:
  "take (length sep) (c # cs) \<noteq> sep \<Longrightarrow> split_from sep cur (c # cs) = split_from sep (cur @ [c]) cs"
  by simp

lemma tag_no_overlap:
  assumes "a \<noteq> []" and "length a < 4"
  shows "take 4 (a @ ''</i>'' @ b) \<noteq> ''</i>''"
proof (cases a)
  case Nil
  with assms show ?thesis by simp
next
  case a1: (Cons x a1)
  show ?thesis
  proof (cases a1)
    case Nil
    with a1 show ?thesis by simp
  next
    case a2: (Cons y a2)
    show ?thesis
    proof (cases a2)
      case Nil
      with a1 a2 show ?thesis by simp
    next
      case a3: (Cons z a3)
      show ?thesis
      proof (cases a3)
        case Nil
        with a1 a2 a3 show ?thesis by simp
      next
        case (Cons u a4)
        with a1 a2 a3 assms(2) show ?thesis by simp
      qed
    qed
  qed
qed

lemma last_split_from_tag:
  "\<not> occurs ''</i>'' b \<Longrightarrow> last (split_from ''</i>'' cur (a @ ''</i>'' @ b)) = b"
proof (induction a arbitrary: cur rule: length_induct)
  case (1 a)
  note IH = "1.IH" [rule_format, OF _ "1.prems"]
  have len: "length ''</i>'' = 4" by simp
  show ?case
  proof (cases a)
    case Nil
    have "split_from ''</i>'' cur (''</i>'' @ b) = cur # split_from ''</i>'' [] b"
      by simp
    with Nil "1.prems" show ?thesis by (simp add: split_from_none)
  next
    case (Cons x a')
    let ?t = "a' @ ''</i>'' @ b"
    have s: "a @ ''</i>'' @ b = x # ?t" using Cons by simp
    show ?thesis
    proof (cases "take (length ''</i>'') (x # ?t) = ''</i>''")
      case False
      have "last (split_from ''</i>'' (cur @ [x]) ?t) = b"
        by (rule IH) (simp add: Cons)
      then show ?thesis
        unfolding s split_from_skip [OF False] .
    next
      case True
      have "\<not> length a < 4"
        using tag_no_overlap [of a b] True Cons unfolding s len by auto
      then have "take 4 (a @ ''</i>'' @ b) = take 4 a" by simp
      with True have "take 4 a = ''</i>''" unfolding s len by simp
      then have r: "a = ''</i>'' @ drop 4 a"
        by (metis append_take_drop_id)
      have d: "drop (length ''</i>'') (x # ?t) = drop 4 a @ ''</i>'' @ b"
        unfolding s [symmetric] len using \<open>\<not> length a < 4\<close> by simp
      have m: "split_from ''</i>'' cur (x # ?t) =
          cur # split_from ''</i>'' [] (drop (length ''</i>'') (x # ?t))"
        by (rule split_from_match [OF _ True]) simp
      have "last (split_from ''</i>'' [] (drop 4 a @ ''</i>'' @ b)) = b"
        by (rule IH) (use \<open>\<not> length a < 4\<close> in simp)
      moreover have "last (split_from ''</i>'' cur (x # ?t)) =
          last (split_from ''</i>'' [] (drop 4 a @ ''</i>'' @ b))"
        by (simp only: m d last.simps split_from_nonempty if_False)
      ultimately show ?thesis by (simp only: s)
    qed
  qed
qed

lemma date_text_after_tag:
  assumes "\<not> occurs ''</i>'' b"
  shows "date_text (a @ ''</i>'' @ b) = strip b"
proof -
  have "last (split_from ''</i>'' [] (a @ ''</i>'' @ b)) = b"
    using assms by (rule last_split_from_tag)
  then show ?thesis by (simp only: date_text_def split_def)
qed

lemma date_text_no_tag:
  "\<not> occurs ''</i>'' t \<Longrightarrow> date_text t = strip t"
  unfolding date_text_def split_def by (simp add: split_from_none)

section \<open>The concrete pages, evaluated\<close>

lemma scrape_url_1: "scrape_url 1 = ''https://sman8ptk.sch.id/berita?page=1''"
  by code_simp

lemma two_page_web_content_1: "content_page site_lib two_page_web 1"
  by code_simp

lemma two_page_web_content_2: "content_page site_lib two_page_web 2"
  by code_simp

lemma two_page_web_last_3: "last_page site_lib two_page_web 3"
  by code_simp

lemma two_page_web_articles_1:
  "page_articles site_lib two_page_web 1 = Inr (map item_article page1_items)"
  by code_simp

lemma two_page_web_articles_2:
  "page_articles site_lib two_page_web 2 = Inr (map item_article page2_items)"
  by code_simp

lemma two_page_web_content: "\<forall>p\<in>{1..int 2}. content_page site_lib two_page_web p"
proof
  fix p :: int
  assume "p \<in> {1..int 2}"
  then have "p = 1 \<or> p = 2" by auto
  then show "content_page site_lib two_page_web p"
    using two_page_web_content_1 two_page_web_content_2 by auto
qed

section \<open>What the parser guarantees\<close>

lemma article_data_keys:
  "article_data L e = Inr a \<Longrightarrow> map fst a = [''title'', ''link'', ''date'', ''description'']"
  by (auto simp: article_data_def Let_def split: sum.splits)

lemma article_data_placeholders:
  assumes "css_first L e ''h3 a'' = None" and "css_first L e ''.post-meta span'' = None"
    and "css_first L e ''p'' = None"
  shows "article_data L e =
    Inr [(''title'', Str ''No Title''), (''link'', Str ''#''), (''date'', Str ''No Date''),
         (''description'', Str ''No Description'')]"
  using assms
  by (simp add: article_data_def title_entry_def link_entry_def date_entry_def description_entry_def)

lemma scrape_berita_absent:
  "\<not> truthy (fetched w p) \<Longrightarrow> scrape_berita L w p requested = (Inr [], requested @ [scrape_url p])"
  by (simp add: scrape_berita_def fetch_html_fetched)

lemma scrape_berita_fetched:
  "truthy (fetched w p) \<Longrightarrow>
   scrape_berita L w p requested = (page_articles L w p, requested @ [scrape_url p])"
  by (simp add: scrape_berita_def fetch_html_fetched page_articles_def)

section \<open>The claims\<close>

text \<open>
  C1. Every parsed record has the four fields, each a string, the placeholder standing
  in for a missing sub-element, and the parser never fails while building a record.
  The code does not keep this: a title anchor without an \<^verbatim>\<open>href\<close> attribute makes
  \<^verbatim>\<open>attributes['href']\<close> raise, and the parser returns no record at all.
\<close>

theorem parse_articles_nohref_raises:
  "parse_articles site_lib (Some nohref_html) = Inl (KeyError ''href'')"
  by code_simp

text \<open>
  C2. For every page number from 1 on, single-page retrieval returns an array and never
  raises. The code does not keep this: on the page whose title anchor has no
  \<^verbatim>\<open>href\<close> the handler raises and the route answers with status 500.
\<close>

theorem get_scrape_berita_nohref_500:
  "get_scrape_berita site_lib nohref_web (Some 1) [] = (Http500, [scrape_url 1])"
  by code_simp

text \<open>
  C3. A request to \<^verbatim>\<open>/scrape-berita\<close> with a page below 1 is rejected by the
  validation of the parameter, and nothing is fetched: the list of requested URLs is
  unchanged.
\<close>

theorem page_below_one_rejected:
  "page < 1 \<Longrightarrow> get_scrape_berita L w (Some page) requested = (Http422, requested)"
  by (simp add: get_scrape_berita_def)

theorem page_below_one_rejected_witness:
  "(0::int) < 1 \<and> get_scrape_berita site_lib two_page_web (Some 0) [] = (Http422, [])"
  using page_below_one_rejected [of 0 site_lib two_page_web "[]"] by simp

text \<open>
  C4, as stated: on a transport error or any status outside 2xx the fetcher returns
  \<^verbatim>\<open>None\<close>. It fails for a status 3xx, for which \<^verbatim>\<open>raise_for_status\<close> does not
  raise: status 300 is outside 2xx, and the body is returned.
\<close>

theorem fetch_html_status_300_body:
  "choices_web (scrape_url 1) = Response 300 ''<a href=\"/berita\">berita</a>''
   \<and> \<not> (200 \<le> (300::int) \<and> (300::int) < 300)
   \<and> fetch_html choices_web (scrape_url 1) [] =
       (Some ''<a href=\"/berita\">berita</a>'', [scrape_url 1])"
  by (simp add: fetch_html_def choices_web_def raise_for_status_def)

text \<open>
  C4, amended: on a transport error, or a status outside 2xx other than 3xx (below 200,
  or from 400 on), the fetcher returns \<^verbatim>\<open>None\<close> and raises nothing; a response
  with a status from 200 to 399, 3xx included, is returned as content. Either way one
  request has been made.
\<close>

theorem fetch_html_failure_absent:
  "(w url = RequestException
      \<or> (w url = Response status_code body \<and> \<not> (200 \<le> status_code \<and> status_code < 400))
     \<longrightarrow> fetch_html w url requested = (None, requested @ [url]))
   \<and> (w url = Response status_code body \<and> 200 \<le> status_code \<and> status_code < 400
     \<longrightarrow> fetch_html w url requested = (Some body, requested @ [url]))"
  by (auto simp: fetch_html_def raise_for_status_def)

theorem fetch_html_failure_absent_witness:
  "down_web (scrape_url 1) = RequestException
   \<and> fetch_html down_web (scrape_url 1) [] = (None, [scrape_url 1])
   \<and> two_page_web (scrape_url 3) = Response 404 ''Not Found''
   \<and> fetch_html two_page_web (scrape_url 3) [] = (None, [scrape_url 3])
   \<and> status_600_web (scrape_url 1) = Response 600 ''body600''
   \<and> fetch_html status_600_web (scrape_url 1) [] = (None, [scrape_url 1])
   \<and> empty_web (scrape_url 1) = Response 200 []
   \<and> fetch_html empty_web (scrape_url 1) [] = (Some [], [scrape_url 1])"
proof -
  have d: "down_web (scrape_url 1) = RequestException"
    by (simp add: down_web_def)
  have t: "two_page_web (scrape_url 3) = Response 404 ''Not Found''"
    by code_simp
  have x: "status_600_web (scrape_url 1) = Response 600 ''body600''"
    by (simp add: status_600_web_def)
  have e: "empty_web (scrape_url 1) = Response 200 []"
    by (simp add: empty_web_def)
  have "fetch_html down_web (scrape_url 1) [] = (None, [] @ [scrape_url 1])"
    using d fetch_html_failure_absent [of down_web "scrape_url 1" 0 "[]" "[]"] by blast
  moreover have "fetch_html two_page_web (scrape_url 3) [] = (None, [] @ [scrape_url 3])"
    using t fetch_html_failure_absent [of two_page_web "scrape_url 3" 404 "''Not Found''" "[]"]
    by simp
  moreover have "fetch_html status_600_web (scrape_url 1) [] = (None, [] @ [scrape_url 1])"
    using x fetch_html_failure_absent [of status_600_web "scrape_url 1" 600 "''body600''" "[]"]
    by simp
  moreover have "fetch_html empty_web (scrape_url 1) [] = (Some [], [] @ [scrape_url 1])"
    using e fetch_html_failure_absent [of empty_web "scrape_url 1" 200 "[]" "[]"]
    by simp
  ultimately show ?thesis using d t x e by simp
qed

text \<open>
  C5. All-pages retrieval returns the per-page parse results concatenated in ascending
  page order, and each page's records are those of its containers in the order the
  selector returns them. The witness is the example of the claim: five articles on page
  1, three on page 2, page 3 not fetched: the eight articles, page 1 first.
\<close>

theorem scrape_berita_all_concat:
  assumes "\<forall>p\<in>{1..int N}. content_page L w p" and "last_page L w (int N + 1)"
  shows "map_option fst (scrape_berita_all L w requested) =
      Some (Inr (concat (map (\<lambda>p. parsed (page_articles L w p)) [1..int N])))
    \<and> (\<forall>h articles. h \<noteq> [] \<and> parse_articles L (Some h) = Inr articles \<longrightarrow>
          map (article_data L) (css L (HTMLParser L h) ''div.post-content'') = map Inr articles)"
proof -
  have "scrape_loop L w 1 [] requested =
      Some (Inr ([] @ concat (map (\<lambda>p. parsed (page_articles L w p)) [1..int N])),
            requested @ map scrape_url [1..int N + 1])"
    using assms by (intro scrape_loop_run) auto
  then have "map_option fst (scrape_berita_all L w requested) =
      Some (Inr (concat (map (\<lambda>p. parsed (page_articles L w p)) [1..int N])))"
    by (simp add: scrape_berita_all_def)
  moreover have "map (article_data L) (css L (HTMLParser L h) ''div.post-content'') = map Inr articles"
    if "h \<noteq> [] \<and> parse_articles L (Some h) = Inr articles" for h articles
  proof -
    from that have "parse_loop L (css L (HTMLParser L h) ''div.post-content'') [] = Inr articles"
      by (auto simp: parse_articles_def)
    then show ?thesis by (rule parse_loop_map)
  qed
  ultimately show ?thesis by blast
qed

theorem scrape_berita_all_concat_witness:
  "content_page site_lib two_page_web 1 \<and> content_page site_lib two_page_web 2
   \<and> last_page site_lib two_page_web 3
   \<and> fetched two_page_web 3 = None
   \<and> length (parsed (page_articles site_lib two_page_web 1)) = 5
   \<and> length (parsed (page_articles site_lib two_page_web 2)) = 3
   \<and> map_option fst (scrape_berita_all site_lib two_page_web []) =
       Some (Inr (map item_article [''a1'', ''a2'', ''a3'', ''a4'', ''a5'', ''b1'', ''b2'', ''b3'']))
   \<and> map (article_data site_lib)
        (css site_lib (HTMLParser site_lib (concat (map item_html page1_items))) ''div.post-content'') =
       map Inr (map item_article [''a1'', ''a2'', ''a3'', ''a4'', ''a5''])"
proof -
  have l: "last_page site_lib two_page_web (int 2 + 1)"
    using two_page_web_last_3 by simp
  have f: "fetched two_page_web 3 = None"
    by code_simp
  have u: "[1..2::int] = [1, 2]"
    by (simp add: upto.simps)
  have "map_option fst (scrape_berita_all site_lib two_page_web []) =
      Some (Inr (concat (map (\<lambda>p. parsed (page_articles site_lib two_page_web p)) [1..int 2])))"
    using scrape_berita_all_concat [OF two_page_web_content l, of "[]"] by blast
  then have "map_option fst (scrape_berita_all site_lib two_page_web []) =
      Some (Inr (map item_article [''a1'', ''a2'', ''a3'', ''a4'', ''a5'', ''b1'', ''b2'', ''b3'']))"
    by (simp add: u two_page_web_articles_1 two_page_web_articles_2 page1_items_def page2_items_def)
  moreover have "concat (map item_html page1_items) \<noteq> []
      \<and> parse_articles site_lib (Some (concat (map item_html page1_items))) =
        Inr (map item_article [''a1'', ''a2'', ''a3'', ''a4'', ''a5''])"
    by code_simp
  then have "map (article_data site_lib)
        (css site_lib (HTMLParser site_lib (concat (map item_html page1_items))) ''div.post-content'') =
       map Inr (map item_article [''a1'', ''a2'', ''a3'', ''a4'', ''a5''])"
    using scrape_berita_all_concat [OF two_page_web_content l, of "[]"] by blast
  ultimately show ?thesis
    using two_page_web_content_1 two_page_web_content_2 two_page_web_last_3 f
    by (simp add: two_page_web_articles_1 two_page_web_articles_2 page1_items_def page2_items_def)
qed

text \<open>
  C6. Where pages 1 to N of the site are non-empty and page N + 1 fails to fetch or
  parses to no article, all-pages retrieval returns, and the requests it has made are
  those for the pages 1, 2, ..., N + 1, in this order: N + 1 fetches, starting at page 1
  and going up by one.
\<close>

theorem scrape_berita_all_fetches:
  assumes "\<forall>p\<in>{1..int N}. content_page L w p" and "last_page L w (int N + 1)"
  shows "\<exists>articles. scrape_berita_all L w requested =
      Some (Inr articles, requested @ map scrape_url [1..int N + 1])
    \<and> length (map scrape_url [1..int N + 1]) = N + 1"
proof -
  have "scrape_loop L w 1 [] requested =
      Some (Inr ([] @ concat (map (\<lambda>p. parsed (page_articles L w p)) [1..int N])),
            requested @ map scrape_url [1..int N + 1])"
    using assms by (intro scrape_loop_run) auto
  then show ?thesis by (simp add: scrape_berita_all_def)
qed

theorem scrape_berita_all_fetches_witness:
  "content_page site_lib two_page_web 1 \<and> content_page site_lib two_page_web 2
   \<and> last_page site_lib two_page_web 3
   \<and> (\<exists>articles. scrape_berita_all site_lib two_page_web [] =
        Some (Inr articles, [scrape_url 1, scrape_url 2, scrape_url 3]))"
proof -
  have l: "last_page site_lib two_page_web (int 2 + 1)"
    using two_page_web_last_3 by simp
  have u: "[1..3::int] = [1, 2, 3]"
    by (simp add: upto.simps)
  from scrape_berita_all_fetches [OF two_page_web_content l, of "[]"]
  have "\<exists>articles. scrape_berita_all site_lib two_page_web [] =
      Some (Inr articles, [scrape_url 1, scrape_url 2, scrape_url 3])"
    by (simp add: u)
  then show ?thesis
    using two_page_web_content_1 two_page_web_content_2 two_page_web_last_3 by simp
qed

text \<open>
  C7. The date field of a record is the date extraction of the parser: the text of the
  date element, split on \<^verbatim>\<open></i>\<close>, the trailing segment taken and stripped of
  surrounding whitespace. Applied to a date element whose markup is
  \<^verbatim>\<open><i class="icon"></i>12 March 2024\<close> it yields \<^verbatim>\<open>12 March 2024\<close>, and so it
  does where that markup is the element's text. In general it keeps what follows the
  last \<^verbatim>\<open></i>\<close> of the element's text (all of it where there is none), stripped.
\<close>

theorem date_extraction:
  "date_entry (Some (Element ''span'' []
      [Element ''i'' [(''class'', Some ''icon'')] [], Text ''12 March 2024''])) = ''12 March 2024''
   \<and> date_entry (Some (Element ''span'' [] [Text ''<i class=\"icon\"></i>12 March 2024'']))
       = ''12 March 2024''
   \<and> (text_strip d1 = a @ ''</i>'' @ b \<and> \<not> occurs ''</i>'' b
        \<longrightarrow> date_entry (Some d1) = strip b)
   \<and> (\<not> occurs ''</i>'' (text_strip d2) \<longrightarrow> date_entry (Some d2) = strip (text_strip d2))
   \<and> (css_first L e ''.post-meta span'' = Some d3 \<and> article_data L e = Inr r
        \<longrightarrow> map_of r ''date'' = Some (Str (date_entry (Some d3))))"
proof -
  have "date_entry (Some (Element ''span'' []
      [Element ''i'' [(''class'', Some ''icon'')] [], Text ''12 March 2024''])) = ''12 March 2024''"
    by code_simp
  moreover have "date_entry (Some (Element ''span'' [] [Text ''<i class=\"icon\"></i>12 March 2024'']))
       = ''12 March 2024''"
    by code_simp
  moreover have "date_entry (Some d1) = strip b"
    if "text_strip d1 = a @ ''</i>'' @ b \<and> \<not> occurs ''</i>'' b"
  proof -
    from that have "date_text (text_strip d1) = strip b"
      using date_text_after_tag [of b a] by simp
    then show ?thesis by (simp add: date_entry_def)
  qed
  moreover have "date_entry (Some d2) = strip (text_strip d2)"
    if "\<not> occurs ''</i>'' (text_strip d2)"
    using that date_text_no_tag [of "text_strip d2"] by (simp add: date_entry_def)
  moreover have "map_of r ''date'' = Some (Str (date_entry (Some d3)))"
    if "css_first L e ''.post-meta span'' = Some d3 \<and> article_data L e = Inr r"
    using that by (auto simp: article_data_def Let_def split: sum.splits)
  ultimately show ?thesis by blast
qed

theorem date_extraction_witness:
  "text_strip escaped_span = ''Terbit '' @ ''</i>'' @ '' 12 March 2024''
   \<and> \<not> occurs ''</i>'' '' 12 March 2024''
   \<and> date_entry (Some escaped_span) = ''12 March 2024''
   \<and> \<not> occurs ''</i>'' (text_strip icon_span)
   \<and> date_entry (Some icon_span) = ''12 March 2024''
   \<and> css_first site_lib dated_item ''.post-meta span'' = Some icon_span
   \<and> article_data site_lib dated_item =
       Inr [(''title'', Str ''Judul''), (''link'', Str ''/berita/1''),
            (''date'', Str ''12 March 2024''), (''description'', Str ''Isi'')]
   \<and> map_of [(''title'', Str ''Judul''), (''link'', Str ''/berita/1''),
            (''date'', Str ''12 March 2024''), (''description'', Str ''Isi'')] ''date''
       = Some (Str (date_entry (Some icon_span)))"
proof -
  have t1: "text_strip escaped_span = ''Terbit '' @ ''</i>'' @ '' 12 March 2024''"
    by code_simp
  have o1: "\<not> occurs ''</i>'' '' 12 March 2024''"
    by code_simp
  have s1: "strip '' 12 March 2024'' = ''12 March 2024''"
    by code_simp
  have o2: "\<not> occurs ''</i>'' (text_strip icon_span)"
    by code_simp
  have s2: "strip (text_strip icon_span) = ''12 March 2024''"
    by code_simp
  have c: "css_first site_lib dated_item ''.post-meta span'' = Some icon_span"
    by code_simp
  have r: "article_data site_lib dated_item =
       Inr [(''title'', Str ''Judul''), (''link'', Str ''/berita/1''),
            (''date'', Str ''12 March 2024''), (''description'', Str ''Isi'')]"
    by code_simp
  from date_extraction [of escaped_span "''Terbit ''" "'' 12 March 2024''" icon_span site_lib
      dated_item icon_span
      "[(''title'', Str ''Judul''), (''link'', Str ''/berita/1''),
        (''date'', Str ''12 March 2024''), (''description'', Str ''Isi'')]"]
  have "date_entry (Some escaped_span) = strip '' 12 March 2024''"
    and "date_entry (Some icon_span) = strip (text_strip icon_span)"
    and "map_of [(''title'', Str ''Judul''), (''link'', Str ''/berita/1''),
            (''date'', Str ''12 March 2024''), (''description'', Str ''Isi'')] ''date''
       = Some (Str (date_entry (Some icon_span)))"
    using t1 o1 o2 c r by blast+
  then show ?thesis using t1 o1 o2 c r s1 s2 by (simp only: simp_thms)
qed

text \<open>
  C8. The parser returns the empty list for an absent input, and for a page text in
  which the container selector matches nothing.
\<close>

theorem parse_articles_nothing:
  "parse_articles L None = Inr []
   \<and> (css L (HTMLParser L h) ''div.post-content'' = [] \<longrightarrow> parse_articles L (Some h) = Inr [])"
  by (simp add: parse_articles_def)

theorem parse_articles_nothing_witness:
  "css site_lib (HTMLParser site_lib plain_html) ''div.post-content'' = []
   \<and> parse_articles site_lib None = Inr []
   \<and> parse_articles site_lib (Some plain_html) = Inr []"
proof -
  have c: "css site_lib (HTMLParser site_lib plain_html) ''div.post-content'' = []"
    by code_simp
  with parse_articles_nothing [of site_lib plain_html] show ?thesis by blast
qed

text \<open>
  C9. All-pages retrieval answers with the empty array when the first fetch fails, and
  never with an error status. The code does not keep the second half: on the site whose
  first page holds a title anchor without \<^verbatim>\<open>href\<close> the handler raises and the route
  answers with status 500.
\<close>

theorem get_scrape_berita_all_nohref_500:
  "get_scrape_berita_all site_lib nohref_web [] = Some (Http500, [scrape_url 1])"
  unfolding get_scrape_berita_all_def scrape_berita_all_def
  by (subst scrape_loop.simps) code_simp

lemma get_scrape_berita_all_first_fetch_fails:
  "fetched w 1 = None \<Longrightarrow>
   get_scrape_berita_all L w requested = Some (Http200 [], requested @ [scrape_url 1])"
  by (simp add: get_scrape_berita_all_def scrape_berita_all_def scrape_loop_stop last_page_def
      response_model_def)

text \<open>
  C10. An empty body is treated as a failed fetch throughout: the parser returns the
  empty list for the empty string as for \<^verbatim>\<open>None\<close>, the single-page handler returns
  the empty list without parsing, and the loop of the all-pages handler stops, each with
  the same result as for a fetch that failed.
\<close>

theorem empty_body_as_failure:
  assumes "w1 (scrape_url p) = RequestException"
    and "w2 (scrape_url p) = Response status_code []" and "\<not> raise_for_status status_code"
  shows "fetched w1 p = None \<and> fetched w2 p = Some []
    \<and> parse_articles L (Some []) = Inr [] \<and> parse_articles L None = Inr []
    \<and> scrape_berita L w2 p requested = (Inr [], requested @ [scrape_url p])
    \<and> scrape_berita L w1 p requested = (Inr [], requested @ [scrape_url p])
    \<and> scrape_loop L w2 p all_articles requested = Some (Inr all_articles, requested @ [scrape_url p])
    \<and> scrape_loop L w1 p all_articles requested = Some (Inr all_articles, requested @ [scrape_url p])"
proof -
  have f1: "fetched w1 p = None"
    using assms(1) by (simp add: fetched_def fetch_html_def)
  have f2: "fetched w2 p = Some []"
    using assms(2,3) by (simp add: fetched_def fetch_html_def)
  have l1: "last_page L w1 p" and l2: "last_page L w2 p"
    using f1 f2 by (simp_all add: last_page_def)
  show ?thesis
    using f1 f2 scrape_loop_stop [OF l1] scrape_loop_stop [OF l2]
    by (simp add: parse_articles_def scrape_berita_absent)
qed

theorem empty_body_as_failure_witness:
  "down_web (scrape_url 1) = RequestException \<and> empty_web (scrape_url 1) = Response 200 []
   \<and> \<not> raise_for_status 200
   \<and> scrape_berita site_lib empty_web 1 [] = (Inr [], [scrape_url 1])
   \<and> scrape_berita site_lib down_web 1 [] = (Inr [], [scrape_url 1])
   \<and> scrape_loop site_lib empty_web 1 [] [] = Some (Inr [], [scrape_url 1])
   \<and> scrape_loop site_lib down_web 1 [] [] = Some (Inr [], [scrape_url 1])"
proof -
  have d: "down_web (scrape_url 1) = RequestException"
    by (simp add: down_web_def)
  have e: "empty_web (scrape_url 1) = Response 200 []"
    by (simp add: empty_web_def)
  have r: "\<not> raise_for_status 200"
    by (simp add: raise_for_status_def)
  from empty_body_as_failure [where ?w1.0 = down_web and ?w2.0 = empty_web and p = 1
      and status_code = 200 and L = site_lib and requested = "[]" and all_articles = "[]", OF d e r]
    d e r
  show ?thesis by simp
qed

end
